theory Spec2Isabelle
  imports Main "HOL-Library.Word"
begin

section \<open>Package room, file user.go: the data\<close>

text \<open>
  The errors a method of \<open>User\<close> can return. The four sentinel values are the package
  variables of user.go; \<open>HashingFailure\<close> carries whatever error
  \<open>bcrypt.GenerateFromPassword\<close> reports; \<open>NotFound\<close> is the error of the playlist
  lookup; \<open>NotCreator\<close> is the value built in \<open>EditMovie\<close> by
  \<open>errors.New("you are not the creator of this movie, you can't edit it")\<close>.
\<close>

datatype error =
    ErrUsernameEmpty
  | ErrUsernameTooLong
  | ErrUserPasswordEmpty
  | ErrUserPasswordTooLong
  | HashingFailure string
  | NotFound
  | NotCreator

text \<open>
  Go pointers \<open>*User\<close> and \<open>*Movie\<close> are addresses into two stores of objects. A pointer
  held by the program always refers to a live object, so both stores are total.
\<close>

type_synonym user_ptr = nat
type_synonym movie_ptr = nat

text \<open>
  \<open>type User struct\<close>. A Go string is a sequence of bytes and \<open>len\<close> counts bytes, as
  \<open>length\<close> does on \<open>string\<close>. The field \<open>room\<close> is left out: the development covers one
  room, and \<open>u.room\<close> is that room for every user handled here.
\<close>

record User =
  name :: string
  password :: string
  version :: "64 word"
  admin :: bool
  lastAct :: int

text \<open>\<open>type UserConf func(*User)\<close>: an option changes the account under construction.\<close>

type_synonym UserConf = "User \<Rightarrow> User"

text \<open>
  \<open>bcrypt.GenerateFromPassword(password, bcrypt.DefaultCost)\<close> belongs to an external
  library: the functions below take it as their first argument.
\<close>

type_synonym hasher = "string \<Rightarrow> error + string"

text \<open>
  \<open>BaseMovieInfo\<close>, as the composite literal in \<open>User.NewMovie\<close> lists its fields. A Go
  map value is a reference that may be \<open>nil\<close>: \<open>None\<close> is the nil map.
\<close>

record BaseMovieInfo =
  Url :: string
  Name :: string
  Live :: bool
  Proxy :: bool
  RtmpSource :: bool
  Type :: string
  Headers :: "(string \<rightharpoonup> string) option"

text \<open>
  Modelled from the spec: \<open>type Movie struct\<close> is declared outside user.go. The fields are
  those user.go reads and writes: the embedded \<open>BaseMovieInfo\<close> (field \<open>base\<close>),
  \<open>PullKey\<close>, \<open>CreatedAt\<close>, the identifier returned by \<open>Id()\<close> and the creator returned by
  \<open>Creator()\<close>, which every entry has.
\<close>

record Movie =
  base :: BaseMovieInfo
  PullKey :: string
  CreatedAt :: int
  movie_id :: "64 word"
  creator :: user_ptr

type_synonym MovieConf = "Movie \<Rightarrow> Movie"

text \<open>\<open>pb.MovieInfo\<close>, the view built by \<open>User.Movie\<close>.\<close>

record pb_MovieInfo =
  pb_Id :: "64 word"
  pb_Url :: string
  pb_Name :: string
  pb_Live :: bool
  pb_Proxy :: bool
  pb_RtmpSource :: bool
  pb_Type :: string
  pb_Headers :: "(string \<rightharpoonup> string) option"
  pb_PullKey :: string
  pb_CreatedAt :: int
  pb_Creator :: string

text \<open>\<open>MovieInfo\<close>, the view built by \<open>User.Movies\<close>; it embeds a \<open>BaseMovieInfo\<close>.\<close>

record MovieInfo =
  mi_Id :: "64 word"
  mi_Base :: BaseMovieInfo
  mi_PullKey :: string
  mi_CreatedAt :: int
  mi_Creator :: string

text \<open>
  Modelled from the spec: \<open>type Room struct\<close> is declared outside user.go. The state holds
  what the methods of \<open>User\<close> reach through \<open>u.room\<close>: the root account, the movie-id
  counter \<open>mid\<close>, the playlist \<open>movies\<close> (the pointers of the list \<open>movies.l\<close> in order)
  and the live channels of \<open>rtmpa\<close>, together with the two object stores.
\<close>

record Room =
  users :: "user_ptr \<Rightarrow> User"
  rootUser :: "user_ptr option"
  mid :: "64 word"
  movie_objs :: "movie_ptr \<Rightarrow> Movie"
  movies :: "movie_ptr list"
  rtmpa :: "string set"

section \<open>Accounts\<close>

definition WithUserVersion :: "64 word \<Rightarrow> UserConf" where
  "WithUserVersion v = (\<lambda>u. u\<lparr>version := v\<rparr>)"

definition WithUserAdmin :: "bool \<Rightarrow> UserConf" where
  "WithUserAdmin a = (\<lambda>u. u\<lparr>admin := a\<rparr>)"

text \<open>
  \<open>NewUser(id, password, room, conf...)\<close>. \<open>now\<close> is \<open>time.Now().UnixMicro()\<close> and \<open>rnd\<close>
  the value drawn by \<open>rand.New(...).Uint64()\<close>. The literal leaves \<open>version\<close> and \<open>admin\<close>
  at their zero values, then the options run in order.
\<close>

definition NewUser :: "hasher \<Rightarrow> int \<Rightarrow> 64 word \<Rightarrow> string \<Rightarrow> string \<Rightarrow> UserConf list \<Rightarrow> error + User" where
  "NewUser gen now rnd ident pw conf =
     (if ident = [] then Inl ErrUsernameEmpty
      else if length ident > 32 then Inl ErrUsernameTooLong
      else if pw = [] then Inl ErrUserPasswordEmpty
      else if length pw > 32 then Inl ErrUserPasswordTooLong
      else (case gen pw of
              Inl err \<Rightarrow> Inl err
            | Inr hashedPassword \<Rightarrow>
                (let u = fold (\<lambda>c u. c u) conf
                           \<lparr>name = ident, password = hashedPassword, version = 0,
                            admin = False, lastAct = now\<rparr>
                 in Inr (if version u = 0 then u\<lparr>version := rnd\<rparr> else u))))"

definition Version :: "User \<Rightarrow> 64 word" where
  "Version u = version u"

definition CheckVersion :: "User \<Rightarrow> 64 word \<Rightarrow> bool" where
  "CheckVersion u v = (Version u = v)"

definition SetVersion :: "User \<Rightarrow> 64 word \<Rightarrow> User" where
  "SetVersion u v = u\<lparr>version := v\<rparr>"

text \<open>\<open>atomic.AddUint64(&u.version, 1)\<close>: the sum wraps at \<open>2 ^ 64\<close> and is returned.\<close>

definition updateVersion :: "User \<Rightarrow> 64 word \<times> User" where
  "updateVersion u = (let v = version u + 1 in (v, u\<lparr>version := v\<rparr>))"

text \<open>\<open>SetPassword\<close> returns its error (\<open>None\<close> is \<open>nil\<close>) and the account after the call.\<close>

definition SetPassword :: "hasher \<Rightarrow> User \<Rightarrow> string \<Rightarrow> error option \<times> User" where
  "SetPassword gen u pw =
     (case gen pw of
        Inl err \<Rightarrow> (Some err, u)
      | Inr hashedPassword \<Rightarrow> (None, snd (updateVersion (u\<lparr>password := hashedPassword\<rparr>))))"

section \<open>The playlist as the methods of User reach it\<close>

definition IsRoot :: "Room \<Rightarrow> user_ptr \<Rightarrow> bool" where
  "IsRoot r u = (rootUser r = Some u)"

definition IsAdmin :: "Room \<Rightarrow> user_ptr \<Rightarrow> bool" where
  "IsAdmin r u = admin (users r u)"

text \<open>
  Modelled from the spec: \<open>movies.GetMovie(id)\<close> is defined outside user.go. It returns the
  entry with the identifier, and \<open>NotFound\<close> for an unknown one.
\<close>

fun GetMovie :: "(movie_ptr \<Rightarrow> Movie) \<Rightarrow> movie_ptr list \<Rightarrow> 64 word \<Rightarrow> error + movie_ptr" where
  "GetMovie objs [] i = Inl NotFound"
| "GetMovie objs (p # ps) i = (if movie_id (objs p) = i then Inr p else GetMovie objs ps i)"

text \<open>
  Modelled from the spec: \<open>movies.range_(f)\<close> is defined outside user.go; its name here
  is \<open>movies_range\<close>. It visits the entries in order and stops when the visitor returns
  false. The visitor's closure state (the slice it appends to) is the accumulator.
\<close>

fun movies_range :: "movie_ptr list \<Rightarrow> (movie_ptr \<Rightarrow> 'a \<Rightarrow> bool \<times> 'a) \<Rightarrow> 'a \<Rightarrow> 'a" where
  "movies_range [] f acc = acc"
| "movies_range (e # es) f acc =
     (case f e acc of (continue, acc') \<Rightarrow> if continue then movies_range es f acc' else acc')"

text \<open>
  Modelled from the spec: \<open>rtmpa.DelChannel(key)\<close> is defined outside user.go. Releasing a
  channel removes its key; releasing an absent key changes nothing. \<open>EditMovie\<close> drops
  the value it returns.
\<close>

definition DelChannel :: "string set \<Rightarrow> string \<Rightarrow> string set" where
  "DelChannel chans k = chans - {k}"

text \<open>Modelled from the spec: the option \<open>WithCreator(u)\<close> sets the creator of the entry.\<close>

definition WithCreator :: "user_ptr \<Rightarrow> MovieConf" where
  "WithCreator u = (\<lambda>m. m\<lparr>creator := u\<rparr>)"

text \<open>
  \<open>User.NewMovieWithBaseMovie\<close>. The package-level constructor of the same name is defined
  outside user.go and is the argument \<open>mk\<close>: it receives the identifier, the base info and
  the options. The counter is advanced before the constructor runs, with
  \<open>atomic.AddUint64(&u.room.mid, 1)\<close>, whether or not the constructor succeeds.
\<close>

type_synonym constructor = "64 word \<Rightarrow> BaseMovieInfo \<Rightarrow> MovieConf list \<Rightarrow> error + Movie"

definition User_NewMovieWithBaseMovie ::
    "constructor \<Rightarrow> user_ptr \<Rightarrow> BaseMovieInfo \<Rightarrow> MovieConf list \<Rightarrow> Room \<Rightarrow> (error + Movie) \<times> Room" where
  "User_NewMovieWithBaseMovie mk u baseMovie conf r =
     (let i = mid r + 1 in (mk i baseMovie (conf @ [WithCreator u]), r\<lparr>mid := i\<rparr>))"

definition User_NewMovie ::
    "constructor \<Rightarrow> user_ptr \<Rightarrow> string \<Rightarrow> string \<Rightarrow> string \<Rightarrow> bool \<Rightarrow> bool \<Rightarrow> bool \<Rightarrow>
     (string \<rightharpoonup> string) option \<Rightarrow> MovieConf list \<Rightarrow> Room \<Rightarrow> (error + Movie) \<times> Room" where
  "User_NewMovie mk u url nm ty live proxy rtmpSource headers conf r =
     User_NewMovieWithBaseMovie mk u
       \<lparr>Url = url, Name = nm, Live = live, Proxy = proxy, RtmpSource = rtmpSource,
        Type = ty, Headers = headers\<rparr> conf r"

text \<open>
  \<open>User.Movie(id)\<close>. \<open>m\<close> is the pointer to the stored entry; \<open>movie\<close> is the view. The
  assignment in the last \<open>if\<close> is \<open>m.Headers = nil\<close>: it writes through \<open>m\<close>.
\<close>

definition User_Movie :: "user_ptr \<Rightarrow> 64 word \<Rightarrow> Room \<Rightarrow> (error + pb_MovieInfo) \<times> Room" where
  "User_Movie u i r =
     (case GetMovie (movie_objs r) (movies r) i of
        Inl err \<Rightarrow> (Inl err, r)
      | Inr m \<Rightarrow>
          (let e = movie_objs r m;
               movie = \<lparr>pb_Id = movie_id e, pb_Url = Url (base e), pb_Name = Name (base e),
                        pb_Live = Live (base e), pb_Proxy = Proxy (base e),
                        pb_RtmpSource = RtmpSource (base e), pb_Type = Type (base e),
                        pb_Headers = Headers (base e), pb_PullKey = PullKey e,
                        pb_CreatedAt = CreatedAt e, pb_Creator = name (users r (creator e))\<rparr>
           in if pb_Proxy movie \<and> name (users r u) \<noteq> pb_Creator movie
              then (Inr movie,
                    r\<lparr>movie_objs := (movie_objs r)(m := e\<lparr>base := (base e)\<lparr>Headers := None\<rparr>\<rparr>)\<rparr>)
              else (Inr movie, r)))"

text \<open>
  \<open>User.Movies()\<close>. Here \<open>m\<close> is the view, and \<open>m.Headers = nil\<close> writes the view's embedded
  \<open>BaseMovieInfo\<close>. The method writes nothing else, so the room it returns is the room it
  was given.
\<close>

definition Movies_visitor :: "Room \<Rightarrow> user_ptr \<Rightarrow> movie_ptr \<Rightarrow> MovieInfo list \<Rightarrow> bool \<times> MovieInfo list" where
  "Movies_visitor r u e ms =
     (let v = movie_objs r e;
          m = \<lparr>mi_Id = movie_id v,
               mi_Base = \<lparr>Url = Url (base v), Name = Name (base v), Live = Live (base v),
                          Proxy = Proxy (base v), RtmpSource = RtmpSource (base v),
                          Type = Type (base v), Headers = Headers (base v)\<rparr>,
               mi_PullKey = PullKey v, mi_CreatedAt = CreatedAt v,
               mi_Creator = name (users r (creator v))\<rparr>;
          m' = (if Proxy (base v) \<and> name (users r u) \<noteq> mi_Creator m
                then m\<lparr>mi_Base := (mi_Base m)\<lparr>Headers := None\<rparr>\<rparr> else m)
      in (True, ms @ [m']))"

definition User_Movies :: "user_ptr \<Rightarrow> Room \<Rightarrow> MovieInfo list \<times> Room" where
  "User_Movies u r = (movies_range (movies r) (Movies_visitor r u) [], r)"

text \<open>
  \<open>User.EditMovie(id, movie)\<close>. The \<open>switch\<close> takes the first case that holds. In its
  first case \<open>DelChannel\<close> receives the pull key before it is cleared.
\<close>

definition User_EditMovie :: "user_ptr \<Rightarrow> 64 word \<Rightarrow> BaseMovieInfo \<Rightarrow> Room \<Rightarrow> error option \<times> Room" where
  "User_EditMovie u i movie r =
     (case GetMovie (movie_objs r) (movies r) i of
        Inl err \<Rightarrow> (Some err, r)
      | Inr m \<Rightarrow>
          (let e = movie_objs r m in
           if \<not> IsAdmin r u \<and> \<not> IsRoot r u \<and> name (users r (creator e)) \<noteq> name (users r u)
           then (Some NotCreator, r)
           else
             (let pre = base e; e1 = e\<lparr>base := movie\<rparr> in
              if RtmpSource pre \<and> \<not> RtmpSource movie
              then (None, r\<lparr>rtmpa := DelChannel (rtmpa r) (PullKey e1),
                            movie_objs := (movie_objs r)(m := e1\<lparr>PullKey := []\<rparr>)\<rparr>)
              else if Proxy pre \<and> \<not> Proxy movie
              then (None, r\<lparr>movie_objs := (movie_objs r)(m := e1\<lparr>PullKey := []\<rparr>)\<rparr>)
              else (None, r\<lparr>movie_objs := (movie_objs r)(m := e1)\<rparr>))))"

section \<open>Sequences of calls\<close>

text \<open>
  The calls a client can make on one account, and the values \<open>Version()\<close> returns before
  the first call and after each one.
\<close>

datatype account_op =
    OpSetPassword string
  | OpUpdateVersion
  | OpSetVersion "64 word"
  | OpCheckVersion "64 word"
  | OpVersion

fun account_step :: "hasher \<Rightarrow> account_op \<Rightarrow> User \<Rightarrow> User" where
  "account_step gen (OpSetPassword pw) u = snd (SetPassword gen u pw)"
| "account_step gen OpUpdateVersion u = snd (updateVersion u)"
| "account_step gen (OpSetVersion v) u = SetVersion u v"
| "account_step gen (OpCheckVersion v) u = u"
| "account_step gen OpVersion u = u"

fun versions :: "hasher \<Rightarrow> account_op list \<Rightarrow> User \<Rightarrow> 64 word list" where
  "versions gen [] u = [Version u]"
| "versions gen (x # xs) u = Version u # versions gen xs (account_step gen x u)"

fun is_SetVersion :: "account_op \<Rightarrow> bool" where
  "is_SetVersion (OpSetVersion v) = True"
| "is_SetVersion _ = False"

text \<open>
  The calls on one room. \<open>OpOther f\<close> stands for an operation of the room that user.go
  does not define, such as appending a new entry to the playlist or deleting one: it may
  change anything but the counter \<open>mid\<close>, which only \<open>User.NewMovieWithBaseMovie\<close>
  writes. \<open>run_ops\<close> collects the entries the successful \<open>NewMovie\<close> calls return, in call
  order.
\<close>

datatype room_op =
    OpNewMovie user_ptr BaseMovieInfo
  | OpEditMovie user_ptr "64 word" BaseMovieInfo
  | OpMovie user_ptr "64 word"
  | OpMovies user_ptr
  | OpOther "Room \<Rightarrow> Room"

fun room_step :: "constructor \<Rightarrow> room_op \<Rightarrow> Room \<Rightarrow> Movie list \<times> Room" where
  "room_step mk (OpNewMovie u b) r =
     (case User_NewMovieWithBaseMovie mk u b [] r of
        (Inl err, r') \<Rightarrow> ([], r')
      | (Inr m, r') \<Rightarrow> ([m], r'))"
| "room_step mk (OpEditMovie u i b) r = ([], snd (User_EditMovie u i b r))"
| "room_step mk (OpMovie u i) r = ([], snd (User_Movie u i r))"
| "room_step mk (OpMovies u) r = ([], snd (User_Movies u r))"
| "room_step mk (OpOther f) r = ([], (f r)\<lparr>mid := mid r\<rparr>)"

fun run_ops :: "constructor \<Rightarrow> room_op list \<Rightarrow> Room \<Rightarrow> Movie list" where
  "run_ops mk [] r = []"
| "run_ops mk (x # xs) r = (case room_step mk x r of (ms, r') \<Rightarrow> ms @ run_ops mk xs r')"

fun new_calls :: "room_op list \<Rightarrow> nat" where
  "new_calls [] = 0"
| "new_calls (OpNewMovie u b # xs) = Suc (new_calls xs)"
| "new_calls (x # xs) = new_calls xs"

text \<open>
  What the results below need of the constructor defined outside user.go: an entry it
  returns carries the identifier it was given.
\<close>

definition keeps_id :: "constructor \<Rightarrow> bool" where
  "keeps_id mk = (\<forall>i b u m. mk i b [WithCreator u] = Inr m \<longrightarrow> movie_id m = i)"

text \<open>
  The two options user.go defines, as data, with the version and the admin flag a list of
  them leaves on a fresh account: the last one of each kind wins.
\<close>

datatype user_option = OptVersion "64 word" | OptAdmin bool

fun conf_of :: "user_option \<Rightarrow> UserConf" where
  "conf_of (OptVersion v) = WithUserVersion v"
| "conf_of (OptAdmin a) = WithUserAdmin a"

fun supplied_version :: "user_option list \<Rightarrow> 64 word option" where
  "supplied_version [] = None"
| "supplied_version (x # xs) =
     (case supplied_version xs of
        Some v \<Rightarrow> Some v
      | None \<Rightarrow> (case x of OptVersion v \<Rightarrow> Some v | OptAdmin a \<Rightarrow> None))"

fun supplied_admin :: "user_option list \<Rightarrow> bool option" where
  "supplied_admin [] = None"
| "supplied_admin (x # xs) =
     (case supplied_admin xs of
        Some a \<Rightarrow> Some a
      | None \<Rightarrow> (case x of OptAdmin a \<Rightarrow> Some a | OptVersion v \<Rightarrow> None))"

section \<open>The redaction rule in the spec's words\<close>

text \<open>
  The headers a requester may see: none when the proxy flag is set and the requester's
  name is not the creator's, the stored ones otherwise. \<open>view_of\<close> is the entry as the
  requester may see it.
\<close>

definition visible_headers :: "Room \<Rightarrow> user_ptr \<Rightarrow> Movie \<Rightarrow> (string \<rightharpoonup> string) option" where
  "visible_headers r u e =
     (if Proxy (base e) \<and> name (users r u) \<noteq> name (users r (creator e)) then None
      else Headers (base e))"

definition view_of :: "Room \<Rightarrow> user_ptr \<Rightarrow> movie_ptr \<Rightarrow> MovieInfo" where
  "view_of r u p =
     (let e = movie_objs r p in
      \<lparr>mi_Id = movie_id e, mi_Base = (base e)\<lparr>Headers := visible_headers r u e\<rparr>,
       mi_PullKey = PullKey e, mi_CreatedAt = CreatedAt e,
       mi_Creator = name (users r (creator e))\<rparr>)"

section \<open>A room to run the code on\<close>

text \<open>
  A hasher that always succeeds, as bcrypt does on the empty password and on any password
  of up to 72 bytes.
\<close>

definition sample_hash :: hasher where
  "sample_hash pw = Inr (''$2a$10$'' @ pw)"

text \<open>
  Modelled from the spec: the package-level \<open>NewMovieWithBaseMovie(id, baseMovie, conf...)\<close>
  is defined outside user.go. It builds the entry with the identifier and the base info
  and applies the options; \<open>now\<close> is the creation time.
\<close>

definition NewMovieWithBaseMovie :: "int \<Rightarrow> constructor" where
  "NewMovieWithBaseMovie now i baseMovie conf =
     Inr (fold (\<lambda>c m. c m) conf
            \<lparr>base = baseMovie, PullKey = [], CreatedAt = now, movie_id = i, creator = 0\<rparr>)"

text \<open>
  Two accounts, alice at address 1 and bob at address 2, neither admin nor root. Alice
  created both entries: entry 1 (at address 7) is proxied and carries headers; entry 2 (at
  address 8) is a live source with the pull key \<open>k1\<close>.
\<close>

definition alice :: User where
  "alice = \<lparr>name = ''alice'', password = ''$2a$10$pw1'', version = 5, admin = False, lastAct = 0\<rparr>"

definition bob :: User where
  "bob = \<lparr>name = ''bob'', password = ''$2a$10$pw2'', version = 9, admin = False, lastAct = 0\<rparr>"

definition secret_headers :: "string \<rightharpoonup> string" where
  "secret_headers = [''Authorization'' \<mapsto> ''Bearer t0ken'']"

definition movieA :: Movie where
  "movieA = \<lparr>base = \<lparr>Url = ''http://x/a.mp4'', Name = ''A'', Live = False, Proxy = True,
                      RtmpSource = False, Type = ''mp4'', Headers = Some secret_headers\<rparr>,
             PullKey = [], CreatedAt = 0, movie_id = 1, creator = 1\<rparr>"

definition liveBase :: BaseMovieInfo where
  "liveBase = \<lparr>Url = [], Name = ''L'', Live = True, Proxy = True, RtmpSource = True,
               Type = ''flv'', Headers = None\<rparr>"

definition movieL :: Movie where
  "movieL = \<lparr>base = liveBase, PullKey = ''k1'', CreatedAt = 0, movie_id = 2, creator = 1\<rparr>"

definition room0 :: Room where
  "room0 = \<lparr>users = (\<lambda>p. if p = 1 then alice else bob), rootUser = None, mid = 2,
            movie_objs = (\<lambda>p. if p = 8 then movieL else movieA), movies = [7, 8],
            rtmpa = {''k1''}\<rparr>"

lemmas sample_defs =
  room0_def movieA_def movieL_def liveBase_def alice_def bob_def sample_hash_def

section \<open>Results: reading an entry\<close>

lemma User_Movie_not_found:
  "GetMovie (movie_objs r) (movies r) i = Inl err \<Longrightarrow> User_Movie u i r = (Inl err, r)"
  by (simp add: User_Movie_def)

text \<open>
  Whoever asks, the view \<open>User.Movie\<close> returns carries the stored headers: the method
  copies them into the view and then clears the field of the stored entry.
\<close>

lemma User_Movie_view_headers:
  "GetMovie (movie_objs r) (movies r) i = Inr m \<Longrightarrow>
   map_sum id pb_Headers (fst (User_Movie u i r)) = Inr (Headers (base (movie_objs r m)))"
  by (simp add: User_Movie_def Let_def)

lemma User_Movie_stored_headers:
  "GetMovie (movie_objs r) (movies r) i = Inr m \<Longrightarrow>
   Headers (base (movie_objs (snd (User_Movie u i r)) m)) = visible_headers r u (movie_objs r m)"
  by (simp add: User_Movie_def Let_def visible_headers_def)

text \<open>
  C1: with the proxy flag set, \<open>User.Movie\<close> should hand a requester other than the creator
  a view without headers, and the creator the original headers. On the sample room bob,
  who is not the creator of entry 1, receives alice's headers in full; and when alice
  asks after bob has, her own headers are gone from her view.
\<close>

theorem User_Movie_leaks_headers:
  "map_sum id pb_Headers (fst (User_Movie 2 1 room0)) = Inr (Some secret_headers) \<and>
   map_sum id pb_Headers (fst (User_Movie 1 1 (snd (User_Movie 2 1 room0)))) = Inr None"
  by (simp add: User_Movie_def sample_defs)

text \<open>
  C2: \<open>User.Movie\<close> should leave the stored entry as it was. On the sample room, bob's call
  for entry 1 sets the stored entry's header map to nil.
\<close>

theorem User_Movie_mutates_entry:
  "Headers (base (movie_objs room0 7)) = Some secret_headers \<and>
   Headers (base (movie_objs (snd (User_Movie 2 1 room0)) 7)) = None \<and>
   snd (User_Movie 2 1 room0) \<noteq> room0"
proof -
  have a: "Headers (base (movie_objs room0 7)) = Some secret_headers"
    by (simp add: sample_defs)
  have b: "Headers (base (movie_objs (snd (User_Movie 2 1 room0)) 7)) = None"
    by (simp add: User_Movie_def sample_defs)
  from a b have "snd (User_Movie 2 1 room0) \<noteq> room0" by auto
  with a b show ?thesis by simp
qed

section \<open>Results: listing the playlist\<close>

lemma base_literal:
  "\<lparr>Url = Url b, Name = Name b, Live = Live b, Proxy = Proxy b, RtmpSource = RtmpSource b,
    Type = Type b, Headers = h\<rparr> = b\<lparr>Headers := h\<rparr>"
  by (cases b) simp

lemma Movies_visitor_view: "Movies_visitor r u p ms = (True, ms @ [view_of r u p])"
  by (simp add: Movies_visitor_def view_of_def visible_headers_def Let_def base_literal)

lemma movies_range_visitor:
  "movies_range ps (Movies_visitor r u) acc = acc @ map (view_of r u) ps"
  by (induction ps arbitrary: acc) (simp_all add: Movies_visitor_view)

text \<open>
  C8: \<open>User.Movies\<close> returns one view per playlist entry, in playlist order; each view is
  the entry with its headers replaced by those the requester may see (none exactly when
  the entry's proxy flag is set and the requester's name is not its creator's); and the
  room, with its stored entries, is returned as it was.
\<close>

theorem User_Movies_views:
  "fst (User_Movies u r) = map (view_of r u) (movies r) \<and>
   map (\<lambda>v. Headers (mi_Base v)) (fst (User_Movies u r)) =
     map (\<lambda>p. if Proxy (base (movie_objs r p)) \<and>
                  name (users r u) \<noteq> name (users r (creator (movie_objs r p)))
               then None else Headers (base (movie_objs r p))) (movies r) \<and>
   snd (User_Movies u r) = r"
  by (simp add: User_Movies_def movies_range_visitor view_of_def visible_headers_def Let_def
      comp_def)

text \<open>
  C10: the views of \<open>User.Movie\<close> and \<open>User.Movies\<close> carry the pull key exactly as stored,
  for every requester and whatever the proxy flag: a lookup that fails returns its error,
  one that succeeds returns a view with the stored pull key, and the list holds the stored
  pull keys in playlist order.
\<close>

theorem pull_key_in_views:
  "(case GetMovie (movie_objs r) (movies r) i of
      Inl err \<Rightarrow> fst (User_Movie u i r) = Inl err
    | Inr m \<Rightarrow> map_sum id pb_PullKey (fst (User_Movie u i r)) = Inr (PullKey (movie_objs r m))) \<and>
   PullKey (movie_objs (snd (User_Movie u i r)) p) = PullKey (movie_objs r p) \<and>
   map mi_PullKey (fst (User_Movies u r)) = map (\<lambda>p. PullKey (movie_objs r p)) (movies r)"
  by (simp add: User_Movie_def User_Movies_def movies_range_visitor view_of_def Let_def
      comp_def split: sum.splits)

section \<open>Results: editing an entry\<close>

text \<open>
  C7: for an existing entry, \<open>EditMovie\<close> passes its permission check when the requester is
  an admin, is the room's root user or bears the creator's name; for any other requester
  it returns the permission error and the room, with the entry, is unchanged.
\<close>

theorem EditMovie_permission:
  assumes "GetMovie (movie_objs r) (movies r) i = Inr m"
  shows "if IsAdmin r u \<or> IsRoot r u \<or>
            name (users r (creator (movie_objs r m))) = name (users r u)
         then fst (User_EditMovie u i movie r) = None
         else User_EditMovie u i movie r = (Some NotCreator, r)"
  using assms by (simp add: User_EditMovie_def Let_def)

theorem EditMovie_permission_witness:
  "GetMovie (movie_objs room0) (movies room0) 2 = Inr 8 \<and>
   fst (User_EditMovie 1 2 (liveBase\<lparr>Name := ''L2''\<rparr>) room0) = None \<and>
   User_EditMovie 2 2 (liveBase\<lparr>Name := ''L2''\<rparr>) room0 = (Some NotCreator, room0)"
proof -
  have h: "GetMovie (movie_objs room0) (movies room0) 2 = Inr 8"
    by (simp add: sample_defs)
  have al: "name (users room0 (creator (movie_objs room0 8))) = name (users room0 1)"
    by (simp add: sample_defs)
  have bo: "\<not> (IsAdmin room0 2 \<or> IsRoot room0 2 \<or>
               name (users room0 (creator (movie_objs room0 8))) = name (users room0 2))"
    by (simp add: IsAdmin_def IsRoot_def sample_defs)
  show ?thesis
    using h al bo EditMovie_permission [OF h, of 1 "liveBase\<lparr>Name := ''L2''\<rparr>"]
      EditMovie_permission [OF h, of 2 "liveBase\<lparr>Name := ''L2''\<rparr>"]
    by simp
qed

text \<open>
  C4, as the claim states it: after every edit the pull key is non-empty exactly when the
  live-source flag is set, and an edit that keeps the flag set never clears the key. On
  the sample room alice edits her live entry 2, whose key is \<open>k1\<close>, keeping the
  live-source flag and turning the proxy flag off: the key is cleared. And when she turns
  the live-source flag of entry 1 on, its key stays empty.
\<close>

theorem EditMovie_pull_key_counterexample:
  "fst (User_EditMovie 1 2 (liveBase\<lparr>Proxy := False\<rparr>) room0) = None \<and>
   RtmpSource (base (movie_objs room0 8)) \<and> PullKey (movie_objs room0 8) = ''k1'' \<and>
   RtmpSource (base (movie_objs (snd (User_EditMovie 1 2 (liveBase\<lparr>Proxy := False\<rparr>) room0)) 8)) \<and>
   PullKey (movie_objs (snd (User_EditMovie 1 2 (liveBase\<lparr>Proxy := False\<rparr>) room0)) 8) = [] \<and>
   fst (User_EditMovie 1 1 (base movieA\<lparr>RtmpSource := True\<rparr>) room0) = None \<and>
   RtmpSource (base (movie_objs (snd (User_EditMovie 1 1 (base movieA\<lparr>RtmpSource := True\<rparr>) room0)) 7)) \<and>
   PullKey (movie_objs (snd (User_EditMovie 1 1 (base movieA\<lparr>RtmpSource := True\<rparr>) room0)) 7) = []"
  by (simp add: User_EditMovie_def IsAdmin_def IsRoot_def sample_defs)

text \<open>
  C4, amended: an \<open>EditMovie\<close> that passes the permission check stores the new base info,
  and the entry's pull key afterwards is empty if the live-source flag went from set to
  unset, or else if the proxy flag went from set to unset; in every other case it is the
  key the entry had before.
\<close>

theorem EditMovie_pull_key:
  assumes "GetMovie (movie_objs r) (movies r) i = Inr m"
      and "fst (User_EditMovie u i movie r) = None"
  shows "base (movie_objs (snd (User_EditMovie u i movie r)) m) = movie \<and>
         PullKey (movie_objs (snd (User_EditMovie u i movie r)) m) =
           (if RtmpSource (base (movie_objs r m)) \<and> \<not> RtmpSource movie then []
            else if Proxy (base (movie_objs r m)) \<and> \<not> Proxy movie then []
            else PullKey (movie_objs r m))"
proof -
  let ?e = "movie_objs r m"
  from assms have allowed:
    "\<not> (\<not> IsAdmin r u \<and> \<not> IsRoot r u \<and> name (users r (creator ?e)) \<noteq> name (users r u))"
    by (auto simp: User_EditMovie_def Let_def split: if_splits)
  show ?thesis
    using assms(1) allowed by (auto simp: User_EditMovie_def Let_def)
qed

theorem EditMovie_pull_key_witness:
  "GetMovie (movie_objs room0) (movies room0) 2 = Inr 8 \<and>
   fst (User_EditMovie 1 2 (liveBase\<lparr>RtmpSource := False\<rparr>) room0) = None \<and>
   base (movie_objs (snd (User_EditMovie 1 2 (liveBase\<lparr>RtmpSource := False\<rparr>) room0)) 8) =
     liveBase\<lparr>RtmpSource := False\<rparr> \<and>
   PullKey (movie_objs (snd (User_EditMovie 1 2 (liveBase\<lparr>RtmpSource := False\<rparr>) room0)) 8) = []"
proof -
  have h1: "GetMovie (movie_objs room0) (movies room0) 2 = Inr 8"
    by (simp add: sample_defs)
  have h2: "fst (User_EditMovie 1 2 (liveBase\<lparr>RtmpSource := False\<rparr>) room0) = None"
    by (simp add: User_EditMovie_def IsAdmin_def IsRoot_def sample_defs)
  have pre: "RtmpSource (base (movie_objs room0 8))"
    by (simp add: sample_defs)
  have new: "\<not> RtmpSource (liveBase\<lparr>RtmpSource := False\<rparr>)"
    by simp
  show ?thesis
    using h1 h2 pre new EditMovie_pull_key [OF h1 h2] by simp
qed

section \<open>Results: accounts\<close>

lemma fold_conf_fields:
  "name (fold (\<lambda>c u. c u) (map conf_of opts) u0) = name u0 \<and>
   password (fold (\<lambda>c u. c u) (map conf_of opts) u0) = password u0 \<and>
   lastAct (fold (\<lambda>c u. c u) (map conf_of opts) u0) = lastAct u0 \<and>
   version (fold (\<lambda>c u. c u) (map conf_of opts) u0) =
     (case supplied_version opts of None \<Rightarrow> version u0 | Some v \<Rightarrow> v) \<and>
   admin (fold (\<lambda>c u. c u) (map conf_of opts) u0) =
     (case supplied_admin opts of None \<Rightarrow> admin u0 | Some a \<Rightarrow> a)"
proof (induction opts arbitrary: u0)
  case Nil
  then show ?case by simp
next
  case (Cons x xs)
  then show ?case
    by (cases x) (simp_all add: WithUserVersion_def WithUserAdmin_def split: option.splits)
qed

lemma fold_conf_user:
  "fold (\<lambda>c u. c u) (map conf_of opts)
     \<lparr>name = n, password = h, version = 0, admin = False, lastAct = t\<rparr> =
   \<lparr>name = n, password = h,
    version = (case supplied_version opts of None \<Rightarrow> 0 | Some v \<Rightarrow> v),
    admin = (case supplied_admin opts of None \<Rightarrow> False | Some a \<Rightarrow> a), lastAct = t\<rparr>"
  using fold_conf_fields [of opts "\<lparr>name = n, password = h, version = 0, admin = False, lastAct = t\<rparr>"]
  by (cases "fold (\<lambda>c u. c u) (map conf_of opts)
     \<lparr>name = n, password = h, version = 0, admin = False, lastAct = t\<rparr>")
    (simp split: option.splits)

text \<open>
  C9, as the claim states it: the account's version is the value the options supply. With
  the option \<open>WithUserVersion(0)\<close> and the random draw 7, the version is 7.
\<close>

theorem NewUser_version_counterexample:
  "map_sum id version (NewUser sample_hash 0 7 ''alice'' ''pw1'' [WithUserVersion 0]) = Inr 7 \<and>
   map_sum id version (NewUser sample_hash 0 7 ''alice'' ''pw1'' [WithUserVersion 0]) \<noteq> Inr 0"
  by (simp add: NewUser_def WithUserVersion_def sample_hash_def)

text \<open>
  C9, amended: \<open>NewUser\<close> checks in this order and returns the first failure: the empty-name
  error for an empty name, the name-too-long error for a name of more than 32 bytes, the
  empty-password error for an empty password, the password-too-long error for a password
  of more than 32 bytes, and the hasher's error when hashing fails. Otherwise it returns
  the account with the name, the hash, the creation time and the admin flag of the
  options, whose version is the last version the options supply when that value is not 0,
  and the random draw when they supply none or supply 0.
\<close>

theorem NewUser_result:
  "NewUser gen now rnd ident pw (map conf_of opts) =
     (if ident = [] then Inl ErrUsernameEmpty
      else if 32 < length ident then Inl ErrUsernameTooLong
      else if pw = [] then Inl ErrUserPasswordEmpty
      else if 32 < length pw then Inl ErrUserPasswordTooLong
      else case gen pw of
             Inl err \<Rightarrow> Inl err
           | Inr h \<Rightarrow>
               Inr \<lparr>name = ident, password = h,
                    version = (case supplied_version opts of
                                 None \<Rightarrow> rnd
                               | Some v \<Rightarrow> if v = 0 then rnd else v),
                    admin = (case supplied_admin opts of None \<Rightarrow> False | Some a \<Rightarrow> a),
                    lastAct = now\<rparr>)"
  by (simp add: NewUser_def Let_def fold_conf_user split: sum.splits option.splits)

lemma SetPassword_error:
  "fst (SetPassword gen u pw) = (case gen pw of Inl err \<Rightarrow> Some err | Inr h \<Rightarrow> None)"
  by (simp add: SetPassword_def split: sum.splits)

lemma SetPassword_success:
  "gen pw = Inr h \<Longrightarrow> SetPassword gen u pw = (None, u\<lparr>password := h, version := version u + 1\<rparr>)"
  by (simp add: SetPassword_def updateVersion_def Let_def)

text \<open>
  C5: \<open>SetPassword\<close> should fail with the bounds errors of account creation and leave the
  account alone. It checks no bound: with a hasher that accepts them, the empty password
  and a password of 33 bytes are hashed and stored and the version is bumped, where
  \<open>NewUser\<close> returns the two errors.
\<close>

theorem SetPassword_no_bounds:
  "SetPassword sample_hash alice [] = (None, alice\<lparr>password := ''$2a$10$'', version := 6\<rparr>) \<and>
   NewUser sample_hash 0 7 ''alice'' [] [] = Inl ErrUserPasswordEmpty \<and>
   length (replicate 33 CHR ''x'') = 33 \<and>
   SetPassword sample_hash alice (replicate 33 CHR ''x'') =
     (None, alice\<lparr>password := ''$2a$10$'' @ replicate 33 CHR ''x'', version := 6\<rparr>) \<and>
   NewUser sample_hash 0 7 ''alice'' (replicate 33 CHR ''x'') [] = Inl ErrUserPasswordTooLong"
  by (simp add: SetPassword_def updateVersion_def NewUser_def Let_def sample_defs)

lemma word64_succ:
  "unat (w :: 64 word) + 1 < 2 ^ 64 \<Longrightarrow> w < w + 1 \<and> unat (w + 1) = unat w + 1"
  by (simp add: word_less_nat_alt unat_word_ariths)

lemma account_step_version:
  "\<not> is_SetVersion x \<Longrightarrow>
   version (account_step gen x u) = version u \<or> version (account_step gen x u) = version u + 1"
  by (cases x) (auto simp: SetPassword_def updateVersion_def Let_def split: sum.splits)

lemma versions_bounds:
  "list_all (\<lambda>x. \<not> is_SetVersion x) ops \<Longrightarrow> unat (version u) + length ops < 2 ^ 64 \<Longrightarrow>
   sorted (versions gen ops u) \<and> list_all (\<lambda>w. version u \<le> w) (versions gen ops u)"
proof (induction ops arbitrary: u)
  case Nil
  then show ?case by (simp add: Version_def)
next
  case (Cons x xs)
  let ?u' = "account_step gen x u"
  from Cons.prems have nx: "\<not> is_SetVersion x"
    and rest: "list_all (\<lambda>x. \<not> is_SetVersion x) xs" by simp_all
  from Cons.prems have b: "unat (version u) + 1 < 2 ^ 64" by simp
  have step: "version u \<le> version ?u' \<and> unat (version ?u') \<le> unat (version u) + 1"
    using account_step_version [OF nx, of gen u] word64_succ [OF b] by auto
  with Cons.prems have "unat (version ?u') + length xs < 2 ^ 64" by simp
  from Cons.IH [OF rest this]
  have ih: "sorted (versions gen xs ?u')"
    "list_all (\<lambda>w. version ?u' \<le> w) (versions gen xs ?u')" by simp_all
  from ih(2) step have all: "list_all (\<lambda>w. version u \<le> w) (versions gen xs ?u')"
    by (auto simp: list_all_iff)
  show ?case using ih(1) all by (simp add: Version_def list_all_iff)
qed

lemma SetVersion_stores: "Version (SetVersion u v) = v"
  by (simp add: Version_def SetVersion_def)

text \<open>
  C3, as the claim states it: no sequence of calls makes \<open>Version()\<close> return less than it
  returned before. Alice's version is 5; after \<open>SetVersion(3)\<close> it is 3.
\<close>

theorem version_counterexample:
  "versions sample_hash [OpSetVersion 3] alice = [5, 3] \<and>
   \<not> sorted (versions sample_hash [OpSetVersion 3] alice)"
  by (simp add: Version_def SetVersion_def alice_def)

text \<open>
  C3, amended: over every sequence of \<open>SetPassword\<close>, \<open>updateVersion\<close>, \<open>CheckVersion\<close> and
  \<open>Version\<close> calls, none of them \<open>SetVersion\<close>, the values \<open>Version()\<close> returns never
  decrease, as long as the 64-bit counter does not wrap: the version at the start plus the
  number of calls stays below \<open>2 ^ 64\<close>.
\<close>

theorem version_non_decreasing:
  assumes "list_all (\<lambda>x. \<not> is_SetVersion x) ops"
      and "unat (version u) + length ops < 2 ^ 64"
  shows "sorted (versions gen ops u)"
  using versions_bounds [OF assms] by simp

theorem version_non_decreasing_witness:
  "list_all (\<lambda>x. \<not> is_SetVersion x)
     [OpSetPassword ''pw3'', OpUpdateVersion, OpVersion, OpCheckVersion 7] \<and>
   unat (version alice) +
     length [OpSetPassword ''pw3'', OpUpdateVersion, OpVersion, OpCheckVersion 7] < 2 ^ 64 \<and>
   versions sample_hash [OpSetPassword ''pw3'', OpUpdateVersion, OpVersion, OpCheckVersion 7] alice
     = [5, 6, 7, 7, 7] \<and>
   sorted (versions sample_hash
     [OpSetPassword ''pw3'', OpUpdateVersion, OpVersion, OpCheckVersion 7] alice)"
proof -
  let ?ops = "[OpSetPassword ''pw3'', OpUpdateVersion, OpVersion, OpCheckVersion 7]"
  have h1: "list_all (\<lambda>x. \<not> is_SetVersion x) ?ops" by simp
  have h2: "unat (version alice) + length ?ops < 2 ^ 64" by (simp add: alice_def)
  have v: "versions sample_hash ?ops alice = [5, 6, 7, 7, 7]"
    by (simp add: Version_def SetPassword_def updateVersion_def Let_def sample_defs)
  from version_non_decreasing [OF h1 h2, of sample_hash] h1 h2 v show ?thesis by blast
qed

section \<open>Results: movie identifiers\<close>

lemma mid_other_ops:
  "mid (snd (User_EditMovie u i b r)) = mid r"
  "mid (snd (User_Movie u i r)) = mid r"
  "mid (snd (User_Movies u r)) = mid r"
  by (simp_all add: User_EditMovie_def User_Movie_def User_Movies_def Let_def split: sum.splits)

lemma room_step_cases:
  assumes "keeps_id mk"
  shows "(\<exists>u b. x = OpNewMovie u b \<and> mid (snd (room_step mk x r)) = mid r + 1 \<and>
            (fst (room_step mk x r) = [] \<or>
             (\<exists>m. fst (room_step mk x r) = [m] \<and> movie_id m = mid r + 1)))
       \<or> ((\<forall>u b. x \<noteq> OpNewMovie u b) \<and> mid (snd (room_step mk x r)) = mid r \<and>
            fst (room_step mk x r) = [])"
proof (cases x)
  case (OpNewMovie u b)
  then show ?thesis using assms
    by (auto simp: User_NewMovieWithBaseMovie_def Let_def keeps_id_def split: sum.splits)
qed (simp_all add: mid_other_ops)

lemma run_ops_ids:
  assumes "keeps_id mk"
  shows "unat (mid r) + new_calls ops < 2 ^ 64 \<Longrightarrow>
         sorted_wrt (<) (map movie_id (run_ops mk ops r)) \<and>
         list_all (\<lambda>m. mid r < movie_id m) (run_ops mk ops r)"
proof (induction ops arbitrary: r)
  case Nil
  then show ?case by simp
next
  case (Cons x xs)
  obtain ms r' where st: "room_step mk x r = (ms, r')" by (cases "room_step mk x r")
  from room_step_cases [OF assms, of x r] st
  consider (new) u b where "x = OpNewMovie u b" "mid r' = mid r + 1"
      "ms = [] \<or> (\<exists>m. ms = [m] \<and> movie_id m = mid r + 1)"
    | (other) "\<forall>u b. x \<noteq> OpNewMovie u b" "mid r' = mid r" "ms = []"
    by auto
  then show ?case
  proof cases
    case new
    from Cons.prems new(1) have b: "unat (mid r) + 1 < 2 ^ 64"
      and b': "unat (mid r) + 1 + new_calls xs < 2 ^ 64" by simp_all
    from word64_succ [OF b] have lt: "mid r < mid r + 1"
      and un: "unat (mid r + 1) = unat (mid r) + 1" by simp_all
    from b' un new(2) have "unat (mid r') + new_calls xs < 2 ^ 64" by simp
    from Cons.IH [OF this]
    have ih: "sorted_wrt (<) (map movie_id (run_ops mk xs r'))"
      "list_all (\<lambda>m. mid r' < movie_id m) (run_ops mk xs r')" by simp_all
    from ih(2) new(2) lt
    have gt: "\<forall>m \<in> set (run_ops mk xs r'). mid r + 1 < movie_id m \<and> mid r < movie_id m"
      by (auto simp: list_all_iff)
    show ?thesis using st ih(1) gt new(3) lt
      by (auto simp: sorted_wrt_append list_all_iff)
  next
    case other
    have "new_calls (x # xs) = new_calls xs" using other(1) by (cases x) simp_all
    with Cons.prems other(2) have "unat (mid r') + new_calls xs < 2 ^ 64" by simp
    from Cons.IH [OF this] show ?thesis using st other by simp
  qed
qed

lemma keeps_id_NewMovieWithBaseMovie: "keeps_id (NewMovieWithBaseMovie now)"
  by (simp add: keeps_id_def NewMovieWithBaseMovie_def WithCreator_def)

text \<open>
  C6, as the claim states it: in every room the identifiers of successive new movies are
  strictly increasing. In a room whose counter stands at \<open>2 ^ 64 - 2\<close>, two calls assign
  \<open>2 ^ 64 - 1\<close> and then 0: the 64-bit counter wraps.
\<close>

theorem new_movie_ids_counterexample:
  "map movie_id (run_ops (NewMovieWithBaseMovie 0)
      [OpNewMovie 1 liveBase, OpNewMovie 2 liveBase] (room0\<lparr>mid := 18446744073709551614\<rparr>))
     = [18446744073709551615, 0] \<and>
   \<not> sorted_wrt (<) (map movie_id (run_ops (NewMovieWithBaseMovie 0)
      [OpNewMovie 1 liveBase, OpNewMovie 2 liveBase] (room0\<lparr>mid := 18446744073709551614\<rparr>)))"
  by (simp add: User_NewMovieWithBaseMovie_def NewMovieWithBaseMovie_def WithCreator_def
      Let_def room0_def)

text \<open>
  C6, amended: as long as the room's 64-bit counter does not wrap (its value at the start
  plus the number of \<open>NewMovie\<close> calls stays below \<open>2 ^ 64\<close>), the identifiers of the
  entries that successful \<open>NewMovie\<close> calls return are strictly increasing in call order,
  hence never reused, and all greater than the counter at the start, whatever edits,
  reads, insertions and deletions happen in between.
\<close>

theorem new_movie_ids_increasing:
  assumes "keeps_id mk"
      and "unat (mid r) + new_calls ops < 2 ^ 64"
  shows "sorted_wrt (<) (map movie_id (run_ops mk ops r)) \<and>
         list_all (\<lambda>m. mid r < movie_id m) (run_ops mk ops r)"
  using run_ops_ids [OF assms] .

theorem new_movie_ids_increasing_witness:
  "keeps_id (NewMovieWithBaseMovie 0) \<and>
   unat (mid room0) +
     new_calls [OpNewMovie 1 liveBase, OpOther (\<lambda>r. r\<lparr>movies := []\<rparr>),
                OpNewMovie 2 liveBase] < 2 ^ 64 \<and>
   map movie_id (run_ops (NewMovieWithBaseMovie 0)
     [OpNewMovie 1 liveBase, OpOther (\<lambda>r. r\<lparr>movies := []\<rparr>),
      OpNewMovie 2 liveBase] room0) = [3, 4] \<and>
   sorted_wrt (<) (map movie_id (run_ops (NewMovieWithBaseMovie 0)
     [OpNewMovie 1 liveBase, OpOther (\<lambda>r. r\<lparr>movies := []\<rparr>),
      OpNewMovie 2 liveBase] room0))"
proof -
  let ?ops = "[OpNewMovie 1 liveBase, OpOther (\<lambda>r. r\<lparr>movies := []\<rparr>),
               OpNewMovie 2 liveBase]"
  have h1: "keeps_id (NewMovieWithBaseMovie 0)"
    by (simp add: keeps_id_def NewMovieWithBaseMovie_def WithCreator_def)
  have h2: "unat (mid room0) + new_calls ?ops < 2 ^ 64"
    by (simp add: room0_def)
  have ids: "map movie_id (run_ops (NewMovieWithBaseMovie 0) ?ops room0) = [3, 4]"
    by (simp add: User_NewMovieWithBaseMovie_def NewMovieWithBaseMovie_def WithCreator_def
        Let_def room0_def)
  from new_movie_ids_increasing [OF h1 h2] h1 h2 ids show ?thesis by blast
qed

end
